theory Spec2Isabelle
  imports Main "HOL-Library.Word"
begin

section \<open>The image-optimisation endpoint of \<^verbatim>\<open>server.js\<close>\<close>

text \<open>
  The development covers \<^verbatim>\<open>generateCacheKey\<close> and the handler of
  \<^verbatim>\<open>GET /optimize/:imageName\<close>. A JavaScript string is modelled by the \<open>string\<close>
  of its UTF-8 bytes: an ASCII character is one \<open>char\<close>, any other code point is the
  two to four bytes of its encoding. These are the bytes that \<^verbatim>\<open>update\<close> hashes and
  that name a file. The Number values the handler computes are integers, modelled as
  \<open>int\<close>: a Number holds every integer of magnitude up to \<open>2 ^ 53\<close> exactly and is
  written by \<^verbatim>\<open>toString\<close> with all its decimal digits there; what is proved about
  parsed values is stated within that range. The third-party collaborators are
  parameters: the MD5 hex digest of \<^verbatim>\<open>node:crypto\<close> and the image library's
  \<^verbatim>\<open>toBuffer\<close>. The filesystem is an explicit state.
\<close>

subsection \<open>Values of \<^verbatim>\<open>req.query\<close>\<close>

text \<open>
  A query parameter is absent (\<open>None\<close>, JavaScript's \<^verbatim>\<open>undefined\<close>), a string, an
  array or an object. \<open>ToString\<close> is the conversion JavaScript applies where a string
  is needed: an array is joined with commas, a plain object gives
  \<^verbatim>\<open>[object Object]\<close>.
\<close>

datatype qvalue = QStr string | QArr "qvalue list" | QObj

fun join :: "string \<Rightarrow> string list \<Rightarrow> string" where
  "join sep [] = []"
| "join sep [x] = x"
| "join sep (x # y # ys) = x @ sep @ join sep (y # ys)"

fun ToString :: "qvalue \<Rightarrow> string" where
  "ToString (QStr s) = s"
| "ToString (QArr xs) = join '','' (map ToString xs)"
| "ToString QObj = ''[object Object]''"

definition ToStringU :: "qvalue option \<Rightarrow> string" where
  "ToStringU v = (case v of None \<Rightarrow> ''undefined'' | Some q \<Rightarrow> ToString q)"

text \<open>Truthiness, as \<^verbatim>\<open>||\<close> tests it: of these values only the empty string is falsy.\<close>

fun truthy :: "qvalue \<Rightarrow> bool" where
  "truthy (QStr s) = (s \<noteq> [])"
| "truthy (QArr xs) = True"
| "truthy QObj = True"

subsection \<open>\<^verbatim>\<open>Number.parseInt\<close> and \<^verbatim>\<open>Number.prototype.toString\<close>\<close>

text \<open>
  The white space that \<^verbatim>\<open>parseInt\<close> trims is the WhiteSpace and LineTerminator
  of ECMAScript. In UTF-8 these are the six ASCII characters TAB, LF, VT, FF, CR and
  SP; the two bytes of U+00A0; and the three bytes of U+1680, U+2000 to U+200A,
  U+2028, U+2029, U+202F, U+205F, U+3000 and U+FEFF.
\<close>

definition isWhiteSpace :: "char \<Rightarrow> bool" where
  "isWhiteSpace c = (c \<in> set [CHR 0x09, CHR 0x0A, CHR 0x0B, CHR 0x0C, CHR 0x0D, CHR '' ''])"

definition isWhiteSpace2 :: "char \<Rightarrow> char \<Rightarrow> bool" where
  "isWhiteSpace2 a b = (a = CHR 0xC2 \<and> b = CHR 0xA0)"

definition isWhiteSpace3 :: "char \<Rightarrow> char \<Rightarrow> char \<Rightarrow> bool" where
  "isWhiteSpace3 a b c =
     (let x = (of_char a :: nat); y = (of_char b :: nat); z = (of_char c :: nat) in
        (x = 0xE1 \<and> y = 0x9A \<and> z = 0x80)
      \<or> (x = 0xE2 \<and> y = 0x80 \<and> (0x80 \<le> z \<and> z \<le> 0x8A \<or> z = 0xA8 \<or> z = 0xA9 \<or> z = 0xAF))
      \<or> (x = 0xE2 \<and> y = 0x81 \<and> z = 0x9F)
      \<or> (x = 0xE3 \<and> y = 0x80 \<and> z = 0x80)
      \<or> (x = 0xEF \<and> y = 0xBB \<and> z = 0xBF))"

fun trimStart :: "string \<Rightarrow> string" where
  "trimStart [] = []"
| "trimStart (a # r) =
     (if isWhiteSpace a then trimStart r
      else (case r of
              [] \<Rightarrow> a # r
            | b # r' \<Rightarrow>
                if isWhiteSpace2 a b then trimStart r'
                else (case r' of
                        [] \<Rightarrow> a # r
                      | c # r'' \<Rightarrow> if isWhiteSpace3 a b c then trimStart r'' else a # r)))"

declare trimStart.simps [simp del]

definition digitValue :: "char \<Rightarrow> nat option" where
  "digitValue c =
     (let n = (of_char c :: nat) in
      if 48 \<le> n \<and> n \<le> 57 then Some (n - 48)
      else if 97 \<le> n \<and> n \<le> 122 then Some (n - 87)
      else if 65 \<le> n \<and> n \<le> 90 then Some (n - 55)
      else None)"

definition isRadixDigit :: "nat \<Rightarrow> char \<Rightarrow> bool" where
  "isRadixDigit R c = (case digitValue c of None \<Rightarrow> False | Some v \<Rightarrow> v < R)"

definition mathInt :: "nat \<Rightarrow> string \<Rightarrow> int" where
  "mathInt R Z =
     foldl (\<lambda>a c. a * int R + (case digitValue c of None \<Rightarrow> 0 | Some v \<Rightarrow> int v)) 0 Z"

text \<open>
  \<^verbatim>\<open>parseInt(string)\<close> with no radix: leading white space is trimmed, a sign is
  read, a \<^verbatim>\<open>0x\<close> prefix selects radix 16, the longest prefix of digits is the
  value, and no digit at all gives \<^verbatim>\<open>NaN\<close> (\<open>None\<close>). The value is the
  mathematical integer of the digits; it is the Number that the code gets when its
  magnitude is at most \<open>2 ^ 53\<close>, and beyond that the code gets the nearest double.
\<close>

definition parseInt :: "string \<Rightarrow> int option" where
  "parseInt inputString =
     (let S = trimStart inputString;
          sign = (case S of c # _ \<Rightarrow> if c = CHR ''-'' then (-1::int) else 1 | [] \<Rightarrow> 1);
          S1 = (case S of c # r \<Rightarrow> if c = CHR ''+'' \<or> c = CHR ''-'' then r else S | [] \<Rightarrow> S);
          hex = (case S1 of a # b # _ \<Rightarrow> a = CHR ''0'' \<and> (b = CHR ''x'' \<or> b = CHR ''X'') | _ \<Rightarrow> False);
          R = (if hex then 16 else 10);
          S2 = (if hex then drop 2 S1 else S1);
          Z = takeWhile (isRadixDigit R) S2
      in if Z = [] then None else Some (sign * mathInt R Z))"

fun showNat :: "nat \<Rightarrow> string" where
  "showNat n =
     (if n < 10 then [char_of (48 + n)]
      else showNat (n div 10) @ [char_of (48 + n mod 10)])"

declare showNat.simps [simp del]

text \<open>
  \<^verbatim>\<open>Number.prototype.toString\<close> of an integer: all its decimal digits, which is
  what the code writes for magnitudes below \<open>10 ^ 21\<close>.
\<close>

definition toString :: "int \<Rightarrow> string" where
  "toString n = (if n < 0 then CHR ''-'' # showNat (nat (- n)) else showNat (nat n))"

text \<open>\<^verbatim>\<open>Number.parseInt(v) || d\<close>: \<^verbatim>\<open>NaN\<close> and \<open>0\<close> are falsy.\<close>

definition orDefault :: "int option \<Rightarrow> int \<Rightarrow> int" where
  "orDefault p d = (case p of None \<Rightarrow> d | Some n \<Rightarrow> if n = 0 then d else n)"

subsection \<open>\<^verbatim>\<open>generateCacheKey\<close>\<close>

text \<open>
  The hash object is fed the five fields one after the other; successive
  \<^verbatim>\<open>update\<close> calls hash the concatenation of their arguments. \<open>md5\<close> is the
  hex digest of a string.
\<close>

definition generateCacheKey ::
  "(string \<Rightarrow> string) \<Rightarrow> string \<Rightarrow> int \<Rightarrow> int \<Rightarrow> int \<Rightarrow> string \<Rightarrow> string" where
  "generateCacheKey md5 originalName width height quality format =
     (let hash = md5 (originalName @ toString width @ toString height @ toString quality @ format)
      in hash @ ''.'' @ format)"

subsection \<open>Filesystem, image library, response\<close>

text \<open>
  The filesystem as the handler sees it: \<open>files w p\<close> is the content that
  \<^verbatim>\<open>fs.readFile\<close> returns for the path \<open>p\<close>, or \<open>None\<close> when the read rejects;
  \<open>writable w p\<close> says whether \<^verbatim>\<open>fs.writeFile\<close> to \<open>p\<close> succeeds (it rejects when
  the directory is missing, the disk is full or permission is denied). A write that
  succeeds is read back unchanged.
\<close>

type_synonym buffer = "8 word list"

datatype error = ENOENT string | EACCES string | ImageError string

record world =
  files :: "string \<Rightarrow> buffer option"
  writable :: "string \<Rightarrow> bool"

definition readFile :: "world \<Rightarrow> string \<Rightarrow> error + buffer" where
  "readFile w p = (case files w p of None \<Rightarrow> Inl (ENOENT p) | Some b \<Rightarrow> Inr b)"

definition writeFile :: "world \<Rightarrow> string \<Rightarrow> buffer \<Rightarrow> error + world" where
  "writeFile w p b =
     (if writable w p then Inr (w\<lparr>files := (files w)(p \<mapsto> b)\<rparr>) else Inl (EACCES p))"

text \<open>
  The image library builds a description of the work (\<^verbatim>\<open>sharp(path)\<close>,
  \<^verbatim>\<open>.resize\<close>, \<^verbatim>\<open>.png\<close>, \<^verbatim>\<open>.webp\<close>, \<^verbatim>\<open>.jpeg\<close>) and runs it in
  \<^verbatim>\<open>toBuffer\<close>, which reads the input file. \<open>toBuffer\<close> is a parameter: a
  function of the filesystem and the description that returns the encoded bytes or an
  error. An argument the library refuses when the description is built (a throw from
  \<^verbatim>\<open>resize\<close> or from an encoder) reaches the same \<^verbatim>\<open>catch\<close> of the handler as
  a rejection of \<^verbatim>\<open>toBuffer\<close>, and is part of that error result.
\<close>

datatype fit = Contain | Cover | Fill | Inside | Outside

datatype encoder = Png | Webp int | Jpeg int

record resizing =
  rwidth :: int
  rheight :: int
  rfit :: fit
  withoutEnlargement :: bool

record image =
  input :: string
  resized :: "resizing option"
  encoding :: "encoder option"

definition sharp :: "string \<Rightarrow> image" where
  "sharp path = \<lparr>input = path, resized = None, encoding = None\<rparr>"

definition resize :: "image \<Rightarrow> int \<Rightarrow> int \<Rightarrow> fit \<Rightarrow> bool \<Rightarrow> image" where
  "resize img w h f we =
     img\<lparr>resized := Some \<lparr>rwidth = w, rheight = h, rfit = f, withoutEnlargement = we\<rparr>\<rparr>"

definition png :: "image \<Rightarrow> image" where
  "png img = img\<lparr>encoding := Some Png\<rparr>"

definition webp :: "image \<Rightarrow> int \<Rightarrow> image" where
  "webp img q = img\<lparr>encoding := Some (Webp q)\<rparr>"

definition jpeg :: "image \<Rightarrow> int \<Rightarrow> image" where
  "jpeg img q = img\<lparr>encoding := Some (Jpeg q)\<rparr>"

record deps =
  md5 :: "string \<Rightarrow> string"
  toBuffer :: "world \<Rightarrow> image \<Rightarrow> error + buffer"

datatype body = Text string | Binary buffer

record response =
  status :: nat
  contentType :: "string option"
  body :: body

text \<open>
  The response as the handler sets it (Express answers 200 unless \<^verbatim>\<open>status\<close> is
  called), and the effects of a request in the order they are attempted.
\<close>

datatype event =
    ReadFile string
  | ToBuffer image
  | WriteFile string buffer
  | ConsoleError error

record outcome =
  res :: response
  effects :: "event list"
  fs :: world

subsection \<open>The handler of \<^verbatim>\<open>GET /optimize/:imageName\<close>\<close>

record request =
  params_imageName :: string
  query_width :: "qvalue option"
  query_height :: "qvalue option"
  query_quality :: "qvalue option"
  query_format :: "qvalue option"

text \<open>
  Lines 116 to 119: \<^verbatim>\<open>Number.parseInt(req.query.width) || 800\<close> and its siblings, and
  \<^verbatim>\<open>req.query.format || "jpg"\<close>.
\<close>

definition parseWidth :: "request \<Rightarrow> int" where
  "parseWidth req = orDefault (parseInt (ToStringU (query_width req))) 800"

definition parseHeight :: "request \<Rightarrow> int" where
  "parseHeight req = orDefault (parseInt (ToStringU (query_height req))) 600"

definition parseQuality :: "request \<Rightarrow> int" where
  "parseQuality req = orDefault (parseInt (ToStringU (query_quality req))) 80"

definition parseFormat :: "request \<Rightarrow> qvalue" where
  "parseFormat req =
     (case query_format req of
        None \<Rightarrow> QStr ''jpg''
      | Some v \<Rightarrow> if truthy v then v else QStr ''jpg'')"

definition validFormats :: "string list" where
  "validFormats = [''jpg'', ''jpeg'', ''png'', ''webp'']"

text \<open>\<^verbatim>\<open>Array.prototype.includes\<close> compares without conversion: only a string can be found.\<close>

definition arrayIncludes :: "string list \<Rightarrow> qvalue \<Rightarrow> bool" where
  "arrayIncludes xs v = (case v of QStr s \<Rightarrow> s \<in> set xs | _ \<Rightarrow> False)"

text \<open>The image built on a cache miss, lines 142 to 159.\<close>

definition buildImage :: "string \<Rightarrow> int \<Rightarrow> int \<Rightarrow> int \<Rightarrow> string \<Rightarrow> image" where
  "buildImage imageName w h q fmt =
     (let image = sharp (''./public/'' @ imageName);
          image = resize image w h Inside True
      in if fmt = ''png'' then png image
         else if fmt = ''webp'' then webp image q
         else jpeg image q)"

definition failed :: "error \<Rightarrow> event list \<Rightarrow> world \<Rightarrow> outcome" where
  "failed e evs w =
     \<lparr>res = \<lparr>status = 500, contentType = None, body = Text ''Image processing error.''\<rparr>,
      effects = evs @ [ConsoleError e], fs = w\<rparr>"

text \<open>The \<^verbatim>\<open>catch\<close> block of the cache read, lines 140 to 167: the image is not in the cache.\<close>

definition cacheMiss ::
  "deps \<Rightarrow> world \<Rightarrow> string \<Rightarrow> int \<Rightarrow> int \<Rightarrow> int \<Rightarrow> string \<Rightarrow> string \<Rightarrow> outcome" where
  "cacheMiss d w imageName width height quality fmt cachePath =
     (let image = buildImage imageName width height quality fmt
      in case toBuffer d w image of
           Inl e \<Rightarrow> failed e [ReadFile cachePath, ToBuffer image] w
         | Inr optimizedImageBuffer \<Rightarrow>
             (case writeFile w cachePath optimizedImageBuffer of
                Inl e \<Rightarrow>
                  failed e [ReadFile cachePath, ToBuffer image,
                            WriteFile cachePath optimizedImageBuffer] w
              | Inr w' \<Rightarrow>
                  \<lparr>res = \<lparr>status = 200, contentType = Some (''image/'' @ fmt),
                          body = Binary optimizedImageBuffer\<rparr>,
                   effects = [ReadFile cachePath, ToBuffer image,
                              WriteFile cachePath optimizedImageBuffer],
                   fs = w'\<rparr>))"

definition optimize :: "deps \<Rightarrow> world \<Rightarrow> request \<Rightarrow> outcome" where
  "optimize d w req =
     (let imageName = params_imageName req;
          width = parseWidth req;
          height = parseHeight req;
          quality = parseQuality req;
          format = parseFormat req
      in if \<not> arrayIncludes validFormats format
         then \<lparr>res = \<lparr>status = 400, contentType = None, body = Text ''Invalid format''\<rparr>,
               effects = [], fs = w\<rparr>
         else
           (let fmt = ToString format;
                cacheKey = generateCacheKey (md5 d) imageName width height quality fmt;
                cachePath = ''./cache/'' @ cacheKey
            in (case readFile w cachePath of
                  Inr cachedImage \<Rightarrow>
                    \<lparr>res = \<lparr>status = 200, contentType = Some (''image/'' @ fmt),
                            body = Binary cachedImage\<rparr>,
                     effects = [ReadFile cachePath], fs = w\<rparr>
                | Inl err \<Rightarrow>
                    cacheMiss d w imageName width height quality fmt cachePath)))"

text \<open>The cache path and the image description the handler computes for a request.\<close>

definition requestFormat :: "request \<Rightarrow> string" where
  "requestFormat req = ToString (parseFormat req)"

definition requestCachePath :: "deps \<Rightarrow> request \<Rightarrow> string" where
  "requestCachePath d req =
     ''./cache/'' @ generateCacheKey (md5 d) (params_imageName req) (parseWidth req)
                      (parseHeight req) (parseQuality req) (requestFormat req)"

definition requestImage :: "request \<Rightarrow> image" where
  "requestImage req =
     buildImage (params_imageName req) (parseWidth req) (parseHeight req) (parseQuality req)
       (requestFormat req)"

subsection \<open>The resize policy\<close>

text \<open>
  Modelled from the spec: the geometry of the image library's \<^verbatim>\<open>resize\<close> is
  third-party code that the repository only calls. The spec's words are: resize to fit
  within the \<open>width \<times> height\<close> box preserving aspect ratio, never enlarging beyond
  the source's native dimensions; a source already smaller than the box is left
  unchanged. \<open>fitInside we (W, H) (w, h)\<close> is the output size for a source of
  \<open>W \<times> H\<close> pixels and a box of \<open>w \<times> h\<close>: the binding side of the box is kept,
  the other side is the proportional length rounded to the nearest pixel (at least one).
\<close>

definition fitInside :: "bool \<Rightarrow> nat \<times> nat \<Rightarrow> nat \<times> nat \<Rightarrow> nat \<times> nat" where
  "fitInside we native box =
     (case (native, box) of
        ((W, H), (w, h)) \<Rightarrow>
          if we \<and> W \<le> w \<and> H \<le> h then (W, H)
          else if w * H \<le> h * W then (w, max 1 ((2 * H * w + W) div (2 * W)))
          else (max 1 ((2 * W * h + H) div (2 * H)), h))"

definition resizedSize :: "resizing \<Rightarrow> nat \<times> nat \<Rightarrow> (nat \<times> nat) option" where
  "resizedSize r native =
     (if rfit r = Inside \<and> 0 < rwidth r \<and> 0 < rheight r
      then Some (fitInside (withoutEnlargement r) native (nat (rwidth r), nat (rheight r)))
      else None)"

text \<open>
  Modelled from the spec: the size of the image that \<^verbatim>\<open>toBuffer\<close> produces from a
  source of the given native size. Without a resize the size is the native one; the
  encoders do not change it.
\<close>

definition outputSize :: "image \<Rightarrow> nat \<times> nat \<Rightarrow> (nat \<times> nat) option" where
  "outputSize img native =
     (case resized img of None \<Rightarrow> Some native | Some r \<Rightarrow> resizedSize r native)"

subsection \<open>Test doubles for the closed examples\<close>

text \<open>
  The closed examples below run the handler with these stand-ins for the third-party
  collaborators: an injective digest (the hexadecimal spelling of its input) and an
  image library that fails on a missing input file and otherwise returns a byte
  naming the encoder followed by the source bytes.
\<close>

definition hexDigit :: "nat \<Rightarrow> char" where
  "hexDigit n = (if n < 10 then char_of (48 + n) else char_of (87 + n))"

definition hexDigest :: "string \<Rightarrow> string" where
  "hexDigest s = concat (map (\<lambda>c. [hexDigit (of_char c div 16), hexDigit (of_char c mod 16)]) s)"

definition stubToBuffer :: "world \<Rightarrow> image \<Rightarrow> error + buffer" where
  "stubToBuffer w img =
     (case files w (input img) of
        None \<Rightarrow> Inl (ImageError ''Input file is missing'')
      | Some src \<Rightarrow>
          Inr ((case encoding img of
                  Some Png \<Rightarrow> 1 | Some (Webp q) \<Rightarrow> 2 | Some (Jpeg q) \<Rightarrow> 3 | None \<Rightarrow> 0) # src))"

definition testDeps :: deps where
  "testDeps = \<lparr>md5 = hexDigest, toBuffer = stubToBuffer\<rparr>"

definition coldWorld :: world where
  "coldWorld =
     \<lparr>files = [''./public/a.jpg'' \<mapsto> [10, 20, 30],
               ''./public/../../etc/passwd'' \<mapsto> [114, 111, 111, 116]],
      writable = (\<lambda>p. True)\<rparr>"

definition readOnlyWorld :: world where
  "readOnlyWorld = coldWorld\<lparr>writable := (\<lambda>p. False)\<rparr>"

definition get :: "string \<Rightarrow> (string \<times> string) list \<Rightarrow> request" where
  "get name q =
     \<lparr>params_imageName = name,
      query_width = map_option QStr (map_of q ''width''),
      query_height = map_option QStr (map_of q ''height''),
      query_quality = map_option QStr (map_of q ''quality''),
      query_format = map_option QStr (map_of q ''format'')\<rparr>"

section \<open>Properties\<close>

subsection \<open>The branches of the handler\<close>

lemma optimize_invalid:
  assumes "\<not> arrayIncludes validFormats (parseFormat req)"
  shows "optimize d w req =
           \<lparr>res = \<lparr>status = 400, contentType = None, body = Text ''Invalid format''\<rparr>,
            effects = [], fs = w\<rparr>"
  using assms by (simp add: optimize_def)

lemma optimize_hit:
  assumes "arrayIncludes validFormats (parseFormat req)"
    and "files w (requestCachePath d req) = Some b"
  shows "optimize d w req =
           \<lparr>res = \<lparr>status = 200, contentType = Some (''image/'' @ requestFormat req),
                   body = Binary b\<rparr>,
            effects = [ReadFile (requestCachePath d req)], fs = w\<rparr>"
  using assms
  by (simp add: optimize_def Let_def readFile_def requestCachePath_def requestFormat_def)

lemma optimize_miss:
  assumes "arrayIncludes validFormats (parseFormat req)"
    and "files w (requestCachePath d req) = None"
  shows "optimize d w req =
           cacheMiss d w (params_imageName req) (parseWidth req) (parseHeight req)
             (parseQuality req) (requestFormat req) (requestCachePath d req)"
  using assms
  by (simp add: optimize_def Let_def readFile_def requestCachePath_def requestFormat_def)

lemma cacheMiss_image_error:
  assumes "toBuffer d w (buildImage n wd ht q f) = Inl e"
  shows "cacheMiss d w n wd ht q f p =
           failed e [ReadFile p, ToBuffer (buildImage n wd ht q f)] w"
  using assms by (simp add: cacheMiss_def Let_def)

lemma cacheMiss_write_error:
  assumes "toBuffer d w (buildImage n wd ht q f) = Inr buf"
    and "\<not> writable w p"
  shows "cacheMiss d w n wd ht q f p =
           failed (EACCES p) [ReadFile p, ToBuffer (buildImage n wd ht q f), WriteFile p buf] w"
  using assms by (simp add: cacheMiss_def Let_def writeFile_def)

lemma cacheMiss_served:
  assumes "toBuffer d w (buildImage n wd ht q f) = Inr buf"
    and "writable w p"
  shows "cacheMiss d w n wd ht q f p =
           \<lparr>res = \<lparr>status = 200, contentType = Some (''image/'' @ f), body = Binary buf\<rparr>,
            effects = [ReadFile p, ToBuffer (buildImage n wd ht q f), WriteFile p buf],
            fs = w\<lparr>files := (files w)(p \<mapsto> buf)\<rparr>\<rparr>"
  using assms by (simp add: cacheMiss_def Let_def writeFile_def)

lemma status_failed: "status (res (failed e evs w)) = 500"
  by (simp add: failed_def)

lemma arrayIncludes_validFormats:
  "arrayIncludes validFormats v \<longleftrightarrow> v \<in> {QStr ''jpg'', QStr ''jpeg'', QStr ''png'', QStr ''webp''}"
  by (cases v) (auto simp: arrayIncludes_def validFormats_def)

lemma status_valid_format:
  assumes "arrayIncludes validFormats (parseFormat req)"
  shows "status (res (optimize d w req)) \<noteq> 400"
proof (cases "files w (requestCachePath d req)")
  case (Some b)
  with assms show ?thesis by (simp add: optimize_hit)
next
  case None
  with assms have "optimize d w req =
      cacheMiss d w (params_imageName req) (parseWidth req) (parseHeight req)
        (parseQuality req) (requestFormat req) (requestCachePath d req)"
    by (rule optimize_miss)
  then show ?thesis
    by (simp add: cacheMiss_def Let_def failed_def split: sum.splits)
qed

text \<open>On a cache miss the handler runs the image library on the image of the request.\<close>

lemma miss_runs_requestImage:
  assumes "arrayIncludes validFormats (parseFormat req)"
    and "files w (requestCachePath d req) = None"
  shows "take 2 (effects (optimize d w req))
           = [ReadFile (requestCachePath d req), ToBuffer (requestImage req)]"
proof -
  have "optimize d w req =
      cacheMiss d w (params_imageName req) (parseWidth req) (parseHeight req)
        (parseQuality req) (requestFormat req) (requestCachePath d req)"
    using assms by (rule optimize_miss)
  then show ?thesis
    by (simp add: cacheMiss_def Let_def failed_def requestImage_def split: sum.splits)
qed

lemma toString_1: "toString 1 = ''1''" by code_simp
lemma toString_12: "toString 12 = ''12''" by code_simp
lemma toString_3: "toString 3 = ''3''" by code_simp
lemma toString_23: "toString 23 = ''23''" by code_simp

subsection \<open>The cache key\<close>

text \<open>
  C1: equal fields give equal keys, and requests that differ in a field should get
  different keys. The first half holds because \<open>generateCacheKey\<close> is a function of
  its arguments. The second half fails whatever the digest is: the fields are fed to the
  hash with nothing between them, so width 1 with height 23 and width 12 with height 3
  give the same hash input and the same key.
\<close>

theorem generateCacheKey_collision:
  "generateCacheKey digest name 1 23 q fmt = generateCacheKey digest name 12 3 q fmt"
  by (simp add: generateCacheKey_def toString_1 toString_12 toString_3 toString_23)

text \<open>
  The second of two such requests is answered from the cache entry of the first, and
  the image library is not run for it.
\<close>

lemma colliding_request_served_wrong_image:
  "parseWidth (get ''a.jpg'' [(''width'', ''1''), (''height'', ''23'')]) = 1
   \<and> parseHeight (get ''a.jpg'' [(''width'', ''1''), (''height'', ''23'')]) = 23
   \<and> parseWidth (get ''a.jpg'' [(''width'', ''12''), (''height'', ''3'')]) = 12
   \<and> parseHeight (get ''a.jpg'' [(''width'', ''12''), (''height'', ''3'')]) = 3
   \<and> effects (optimize testDeps
         (fs (optimize testDeps coldWorld (get ''a.jpg'' [(''width'', ''1''), (''height'', ''23'')])))
         (get ''a.jpg'' [(''width'', ''12''), (''height'', ''3'')]))
       = [ReadFile (requestCachePath testDeps (get ''a.jpg'' [(''width'', ''1''), (''height'', ''23'')]))]"
  by code_simp

subsection \<open>Serving from the cache\<close>

text \<open>
  C2: take a request with a supported format whose cache file either holds the bytes
  \<open>buf\<close> already or is absent while the image library returns \<open>buf\<close> and the cache
  file can be written. The first invocation is served with \<open>buf\<close> and leaves the
  cache file holding \<open>buf\<close> (on a miss it reads the cache, runs the image library and
  writes the file). The second invocation, on the filesystem the first one left, gets
  the same response, status, content type and body; its only effect is one read of the
  cache file, so the image library is not run and nothing is written.
\<close>

theorem optimize_twice_served_from_cache:
  assumes "arrayIncludes validFormats (parseFormat req)"
    and "files w (requestCachePath d req) = Some buf
       \<or> (files w (requestCachePath d req) = None
          \<and> toBuffer d w (requestImage req) = Inr buf
          \<and> writable w (requestCachePath d req))"
  shows "res (optimize d w req)
           = \<lparr>status = 200, contentType = Some (''image/'' @ requestFormat req),
              body = Binary buf\<rparr>
       \<and> files (fs (optimize d w req)) (requestCachePath d req) = Some buf
       \<and> (files w (requestCachePath d req) = None \<longrightarrow>
            effects (optimize d w req)
              = [ReadFile (requestCachePath d req), ToBuffer (requestImage req),
                 WriteFile (requestCachePath d req) buf])
       \<and> res (optimize d (fs (optimize d w req)) req) = res (optimize d w req)
       \<and> effects (optimize d (fs (optimize d w req)) req) = [ReadFile (requestCachePath d req)]
       \<and> (\<forall>img. ToBuffer img \<notin> set (effects (optimize d (fs (optimize d w req)) req)))
       \<and> fs (optimize d (fs (optimize d w req)) req) = fs (optimize d w req)"
proof -
  let ?p = "requestCachePath d req"
  let ?img = "requestImage req"
  let ?served = "\<lparr>status = 200, contentType = Some (''image/'' @ requestFormat req),
              body = Binary buf\<rparr>"
  have again: "optimize d w' req = \<lparr>res = ?served, effects = [ReadFile ?p], fs = w'\<rparr>"
    if "files w' ?p = Some buf" for w'
    using assms(1) that by (rule optimize_hit)
  from assms(2) show ?thesis
  proof
    assume hit: "files w ?p = Some buf"
    then have "optimize d w req = \<lparr>res = ?served, effects = [ReadFile ?p], fs = w\<rparr>"
      by (rule again)
    with hit show ?thesis by simp
  next
    assume miss: "files w ?p = None \<and> toBuffer d w ?img = Inr buf \<and> writable w ?p"
    let ?w' = "w\<lparr>files := (files w)(?p \<mapsto> buf)\<rparr>"
    have "optimize d w req =
        cacheMiss d w (params_imageName req) (parseWidth req) (parseHeight req)
          (parseQuality req) (requestFormat req) ?p"
      using assms(1) miss by (simp add: optimize_miss)
    with miss have first: "optimize d w req =
        \<lparr>res = ?served, effects = [ReadFile ?p, ToBuffer ?img, WriteFile ?p buf], fs = ?w'\<rparr>"
      by (simp add: cacheMiss_served requestImage_def)
    have "files ?w' ?p = Some buf"
      by simp
    then have second: "optimize d ?w' req = \<lparr>res = ?served, effects = [ReadFile ?p], fs = ?w'\<rparr>"
      by (rule again)
    show ?thesis
      unfolding first using second by simp
  qed
qed

theorem optimize_twice_witness:
  "arrayIncludes validFormats (parseFormat (get ''a.jpg'' []))
   \<and> files coldWorld (requestCachePath testDeps (get ''a.jpg'' [])) = None
   \<and> toBuffer testDeps coldWorld (requestImage (get ''a.jpg'' [])) = Inr [3, 10, 20, 30]
   \<and> writable coldWorld (requestCachePath testDeps (get ''a.jpg'' []))
   \<and> res (optimize testDeps coldWorld (get ''a.jpg'' []))
       = \<lparr>status = 200, contentType = Some ''image/jpg'', body = Binary [3, 10, 20, 30]\<rparr>
   \<and> files (fs (optimize testDeps coldWorld (get ''a.jpg'' [])))
         ''./cache/612e6a706738303036303038306a7067.jpg'' = Some [3, 10, 20, 30]
   \<and> res (optimize testDeps (fs (optimize testDeps coldWorld (get ''a.jpg'' []))) (get ''a.jpg'' []))
       = \<lparr>status = 200, contentType = Some ''image/jpg'', body = Binary [3, 10, 20, 30]\<rparr>
   \<and> effects (optimize testDeps (fs (optimize testDeps coldWorld (get ''a.jpg'' []))) (get ''a.jpg'' []))
       = [ReadFile ''./cache/612e6a706738303036303038306a7067.jpg'']"
proof -
  have valid: "arrayIncludes validFormats (parseFormat (get ''a.jpg'' []))"
    by code_simp
  have miss: "files coldWorld (requestCachePath testDeps (get ''a.jpg'' [])) = None"
    by code_simp
  have img: "toBuffer testDeps coldWorld (requestImage (get ''a.jpg'' [])) = Inr [3, 10, 20, 30]"
    by code_simp
  have wr: "writable coldWorld (requestCachePath testDeps (get ''a.jpg'' []))"
    by code_simp
  have path: "requestCachePath testDeps (get ''a.jpg'' [])
       = ''./cache/612e6a706738303036303038306a7067.jpg''"
    by code_simp
  have fmt: "requestFormat (get ''a.jpg'' []) = ''jpg''"
    by code_simp
  from miss img wr
  have "files coldWorld (requestCachePath testDeps (get ''a.jpg'' [])) = Some [3, 10, 20, 30]
       \<or> (files coldWorld (requestCachePath testDeps (get ''a.jpg'' [])) = None
          \<and> toBuffer testDeps coldWorld (requestImage (get ''a.jpg'' [])) = Inr [3, 10, 20, 30]
          \<and> writable coldWorld (requestCachePath testDeps (get ''a.jpg'' [])))"
    by blast
  from optimize_twice_served_from_cache [OF valid this] valid miss img wr path fmt
  show ?thesis by simp
qed

subsection \<open>Format validation\<close>

text \<open>
  C5: a request whose format (the query parameter, or \<^verbatim>\<open>jpg\<close> when it is absent
  or empty) is not one of the supported formats is answered with status 400 and has no
  effect at all: no file is read or written, the image library is not run and the
  filesystem is unchanged.
\<close>

theorem invalid_format_rejected_without_effects:
  assumes "\<not> arrayIncludes validFormats (parseFormat req)"
  shows "res (optimize d w req) = \<lparr>status = 400, contentType = None, body = Text ''Invalid format''\<rparr>
       \<and> effects (optimize d w req) = []
       \<and> fs (optimize d w req) = w"
  using assms by (simp add: optimize_invalid)

theorem invalid_format_rejected_witness:
  "\<not> arrayIncludes validFormats (parseFormat (get ''a.jpg'' [(''format'', ''bmp'')]))
   \<and> status (res (optimize testDeps coldWorld (get ''a.jpg'' [(''format'', ''bmp'')]))) = 400
   \<and> effects (optimize testDeps coldWorld (get ''a.jpg'' [(''format'', ''bmp'')])) = []"
proof -
  have bad: "\<not> arrayIncludes validFormats (parseFormat (get ''a.jpg'' [(''format'', ''bmp'')]))"
    by code_simp
  from invalid_format_rejected_without_effects [OF bad, of testDeps coldWorld] bad
  show ?thesis by simp
qed

text \<open>
  C10: the handler answers 400 exactly when its format value is not one of the four
  strings \<^verbatim>\<open>jpg\<close>, \<^verbatim>\<open>jpeg\<close>, \<^verbatim>\<open>png\<close>, \<^verbatim>\<open>webp\<close>; the test is
  case sensitive, so \<^verbatim>\<open>JPG\<close> and \<^verbatim>\<open>Png\<close> are rejected.
\<close>

theorem format_validation_exact:
  "(status (res (optimize d w req)) = 400
      \<longleftrightarrow> parseFormat req \<notin> {QStr ''jpg'', QStr ''jpeg'', QStr ''png'', QStr ''webp''})
   \<and> status (res (optimize d w (req\<lparr>query_format := Some (QStr ''JPG'')\<rparr>))) = 400
   \<and> status (res (optimize d w (req\<lparr>query_format := Some (QStr ''Png'')\<rparr>))) = 400"
proof -
  have iff: "status (res (optimize d w r)) = 400
      \<longleftrightarrow> parseFormat r \<notin> {QStr ''jpg'', QStr ''jpeg'', QStr ''png'', QStr ''webp''}" for r
    using status_valid_format [of r d w] optimize_invalid [of r d w]
    by (auto simp: arrayIncludes_validFormats)
  have "parseFormat (req\<lparr>query_format := Some (QStr ''JPG'')\<rparr>) = QStr ''JPG''"
    and "parseFormat (req\<lparr>query_format := Some (QStr ''Png'')\<rparr>) = QStr ''Png''"
    by (simp_all add: parseFormat_def)
  then show ?thesis using iff by simp
qed

subsection \<open>Failures on a cache miss\<close>

text \<open>
  C3: a failing cache write should not keep the handler from serving the bytes it has
  just computed. The handler awaits the write inside the outer \<^verbatim>\<open>try\<close>, so the
  claim fails: with the image computed and the cache file not writable, the response
  is 500.
\<close>

theorem cache_write_failure_counterexample:
  "toBuffer testDeps readOnlyWorld (requestImage (get ''a.jpg'' [])) = Inr [3, 10, 20, 30]
   \<and> \<not> writable readOnlyWorld (requestCachePath testDeps (get ''a.jpg'' []))
   \<and> res (optimize testDeps readOnlyWorld (get ''a.jpg'' []))
       = \<lparr>status = 500, contentType = None, body = Text ''Image processing error.''\<rparr>"
  by code_simp

text \<open>
  C3, as the handler behaves: when the image library succeeds on a cache miss and the
  write of the cache file fails, the error is logged and the response is 500 with the
  text \<^verbatim>\<open>Image processing error.\<close>; the computed bytes are not sent and the
  filesystem is unchanged.
\<close>

theorem cache_write_failure_surfaced:
  assumes "arrayIncludes validFormats (parseFormat req)"
    and "files w (requestCachePath d req) = None"
    and "toBuffer d w (requestImage req) = Inr buf"
    and "\<not> writable w (requestCachePath d req)"
  shows "res (optimize d w req)
           = \<lparr>status = 500, contentType = None, body = Text ''Image processing error.''\<rparr>
       \<and> effects (optimize d w req)
           = [ReadFile (requestCachePath d req), ToBuffer (requestImage req),
              WriteFile (requestCachePath d req) buf,
              ConsoleError (EACCES (requestCachePath d req))]
       \<and> fs (optimize d w req) = w"
proof -
  have "optimize d w req =
      cacheMiss d w (params_imageName req) (parseWidth req) (parseHeight req)
        (parseQuality req) (requestFormat req) (requestCachePath d req)"
    using assms(1,2) by (rule optimize_miss)
  with assms(3,4) show ?thesis
    by (simp add: cacheMiss_write_error requestImage_def failed_def)
qed

theorem cache_write_failure_witness:
  "arrayIncludes validFormats (parseFormat (get ''a.jpg'' []))
   \<and> files readOnlyWorld (requestCachePath testDeps (get ''a.jpg'' [])) = None
   \<and> toBuffer testDeps readOnlyWorld (requestImage (get ''a.jpg'' [])) = Inr [3, 10, 20, 30]
   \<and> \<not> writable readOnlyWorld (requestCachePath testDeps (get ''a.jpg'' []))
   \<and> status (res (optimize testDeps readOnlyWorld (get ''a.jpg'' []))) = 500
   \<and> effects (optimize testDeps readOnlyWorld (get ''a.jpg'' [])) ! 3
       = ConsoleError (EACCES ''./cache/612e6a706738303036303038306a7067.jpg'')"
proof -
  have valid: "arrayIncludes validFormats (parseFormat (get ''a.jpg'' []))"
    by code_simp
  have miss: "files readOnlyWorld (requestCachePath testDeps (get ''a.jpg'' [])) = None"
    by code_simp
  have img: "toBuffer testDeps readOnlyWorld (requestImage (get ''a.jpg'' [])) = Inr [3, 10, 20, 30]"
    by code_simp
  have ro: "\<not> writable readOnlyWorld (requestCachePath testDeps (get ''a.jpg'' []))"
    by code_simp
  have path: "requestCachePath testDeps (get ''a.jpg'' [])
       = ''./cache/612e6a706738303036303038306a7067.jpg''"
    by code_simp
  from cache_write_failure_surfaced [OF valid miss img ro] valid miss img ro path
  show ?thesis by simp
qed

subsection \<open>The image name\<close>

text \<open>
  C4: an image name with a path-traversal sequence should be rejected before any file
  is read. The handler has no such check: for \<^verbatim>\<open>../../etc/passwd\<close> it reads the
  cache, hands \<^verbatim>\<open>./public/../../etc/passwd\<close> to the image library and serves the
  result.
\<close>

theorem path_traversal_counterexample:
  "status (res (optimize testDeps coldWorld (get ''../../etc/passwd'' []))) = 200
   \<and> body (res (optimize testDeps coldWorld (get ''../../etc/passwd'' [])))
       = Binary [3, 114, 111, 111, 116]
   \<and> effects (optimize testDeps coldWorld (get ''../../etc/passwd'' [])) ! 1
       = ToBuffer \<lparr>input = ''./public/../../etc/passwd'',
                   resized = Some \<lparr>rwidth = 800, rheight = 600, rfit = Inside,
                                   withoutEnlargement = True\<rparr>,
                   encoding = Some (Jpeg 80)\<rparr>"
  by code_simp

text \<open>The image library is always given the name appended to \<^verbatim>\<open>./public/\<close>.\<close>

lemma input_buildImage: "input (buildImage n wd ht q f) = ''./public/'' @ n"
  by (simp add: buildImage_def Let_def sharp_def resize_def png_def webp_def jpeg_def)

text \<open>
  C4, as the handler behaves: the image name is not validated. Whatever the name, a
  request with a supported format is never answered 400; its first effect is the read
  of its cache file, and on a miss the second is the run of the image library on the
  path \<^verbatim>\<open>./public/\<close> followed by the name as received.
\<close>

theorem imageName_not_validated:
  assumes "arrayIncludes validFormats (parseFormat req)"
  shows "status (res (optimize d w req)) \<noteq> 400
       \<and> take 1 (effects (optimize d w req)) = [ReadFile (requestCachePath d req)]
       \<and> (files w (requestCachePath d req) = None \<longrightarrow>
            take 2 (effects (optimize d w req))
              = [ReadFile (requestCachePath d req), ToBuffer (requestImage req)])
       \<and> input (requestImage req) = ''./public/'' @ params_imageName req"
proof -
  have 1: "status (res (optimize d w req)) \<noteq> 400"
    using assms by (rule status_valid_format)
  have 4: "input (requestImage req) = ''./public/'' @ params_imageName req"
    by (simp add: requestImage_def input_buildImage)
  have 3: "take 2 (effects (optimize d w req))
              = [ReadFile (requestCachePath d req), ToBuffer (requestImage req)]"
    if "files w (requestCachePath d req) = None"
  proof -
    have "optimize d w req =
        cacheMiss d w (params_imageName req) (parseWidth req) (parseHeight req)
          (parseQuality req) (requestFormat req) (requestCachePath d req)"
      using assms that by (rule optimize_miss)
    then show ?thesis
      by (simp add: cacheMiss_def Let_def failed_def requestImage_def split: sum.splits)
  qed
  have 2: "take 1 (effects (optimize d w req)) = [ReadFile (requestCachePath d req)]"
  proof (cases "files w (requestCachePath d req)")
    case None
    from 3 [OF None] have "take 1 (take 2 (effects (optimize d w req)))
        = take 1 [ReadFile (requestCachePath d req), ToBuffer (requestImage req)]"
      by simp
    then show ?thesis by (simp add: min_def)
  next
    case (Some b)
    with assms show ?thesis by (simp add: optimize_hit)
  qed
  from 1 2 3 4 show ?thesis by blast
qed

theorem imageName_not_validated_witness:
  "arrayIncludes validFormats (parseFormat (get ''../../etc/passwd'' []))
   \<and> files coldWorld (requestCachePath testDeps (get ''../../etc/passwd'' [])) = None
   \<and> status (res (optimize testDeps coldWorld (get ''../../etc/passwd'' []))) \<noteq> 400
   \<and> take 2 (effects (optimize testDeps coldWorld (get ''../../etc/passwd'' [])))
       = [ReadFile (requestCachePath testDeps (get ''../../etc/passwd'' [])),
          ToBuffer (requestImage (get ''../../etc/passwd'' []))]
   \<and> input (requestImage (get ''../../etc/passwd'' [])) = ''./public/../../etc/passwd''"
proof -
  have valid: "arrayIncludes validFormats (parseFormat (get ''../../etc/passwd'' []))"
    by code_simp
  have miss: "files coldWorld (requestCachePath testDeps (get ''../../etc/passwd'' [])) = None"
    by code_simp
  have name: "params_imageName (get ''../../etc/passwd'' []) = ''../../etc/passwd''"
    by (simp add: get_def)
  from imageName_not_validated [OF valid, of testDeps coldWorld] valid miss name
  show ?thesis by simp
qed

subsection \<open>Number parsing\<close>

text \<open>
  \<open>parseInt\<close> reads back what \<open>toString\<close> writes, and gives \<^verbatim>\<open>NaN\<close> for a string
  that starts with an ASCII character that is neither white space, a sign nor a
  decimal digit.
\<close>

lemma digitValue_decimal: "k < 10 \<Longrightarrow> digitValue (char_of (48 + k)) = Some k"
  by (simp add: digitValue_def Let_def)

lemma decimal_showNat: "c \<in> set (showNat n) \<Longrightarrow> isRadixDigit 10 c"
proof (induction n rule: showNat.induct)
  case (1 n)
  show ?case
  proof (cases "n < 10")
    case True
    with "1.prems" have "c = char_of (48 + n)"
      by (simp add: showNat.simps [of n])
    with True show ?thesis
      by (simp add: isRadixDigit_def digitValue_decimal)
  next
    case False
    with "1.prems" have "c \<in> set (showNat (n div 10)) \<or> c = char_of (48 + n mod 10)"
      by (auto simp: showNat.simps [of n])
    then show ?thesis
    proof
      assume "c \<in> set (showNat (n div 10))"
      with False show ?thesis by (rule "1.IH")
    next
      assume "c = char_of (48 + n mod 10)"
      then show ?thesis
        by (simp add: isRadixDigit_def digitValue_decimal)
    qed
  qed
qed

lemma showNat_not_Nil: "showNat n \<noteq> []"
  by (simp add: showNat.simps [of n])

lemma mathInt_snoc:
  "mathInt R (Z @ [c]) = mathInt R Z * int R + (case digitValue c of None \<Rightarrow> 0 | Some v \<Rightarrow> int v)"
  by (simp add: mathInt_def)

lemma mathInt_showNat: "mathInt 10 (showNat n) = int n"
proof (induction n rule: showNat.induct)
  case (1 n)
  show ?case
  proof (cases "n < 10")
    case True
    then show ?thesis
      by (simp add: showNat.simps [of n] mathInt_def digitValue_decimal)
  next
    case False
    then have "mathInt 10 (showNat (n div 10)) = int (n div 10)"
      by (rule "1.IH")
    moreover have "int (n div 10) * 10 + int (n mod 10) = int n"
      by (simp add: zdiv_int zmod_int)
    ultimately show ?thesis
      using False by (simp add: showNat.simps [of n] mathInt_snoc digitValue_decimal)
  qed
qed

lemma trimStart_ascii:
  assumes "of_char c < (128 :: nat)" and "\<not> isWhiteSpace c"
  shows "trimStart (c # r) = c # r"
proof -
  have "\<not> isWhiteSpace2 c b" for b
    using assms(1) by (auto simp: isWhiteSpace2_def)
  moreover have "\<not> isWhiteSpace3 c b d" for b d
    using assms(1) by (auto simp: isWhiteSpace3_def Let_def)
  ultimately show ?thesis
    using assms(2) by (simp add: trimStart.simps split: list.splits)
qed

lemma decimal_not_other:
  assumes "isRadixDigit 10 c"
  shows "\<not> isWhiteSpace c" and "c \<noteq> CHR ''+''" and "c \<noteq> CHR ''-''"
    and "c \<noteq> CHR ''x''" and "c \<noteq> CHR ''X''" and "of_char c < (128 :: nat)"
  using assms
  by (auto simp: isRadixDigit_def digitValue_def isWhiteSpace_def Let_def split: if_splits)

lemma parseInt_decimal:
  assumes "s \<noteq> []" and "\<And>c. c \<in> set s \<Longrightarrow> isRadixDigit 10 c"
  shows "parseInt s = Some (mathInt 10 s)"
    and "parseInt (CHR ''-'' # s) = Some (- mathInt 10 s)"
proof -
  from assms(1) obtain c r where s: "s = c # r" by (cases s) auto
  have c: "isRadixDigit 10 c" using assms(2) s by simp
  have nohex: "(case s of a # b # _ \<Rightarrow> a = CHR ''0'' \<and> (b = CHR ''x'' \<or> b = CHR ''X'') | _ \<Rightarrow> False) = False"
  proof (cases r)
    case Nil
    with s show ?thesis by simp
  next
    case (Cons b r')
    with assms(2) s have "isRadixDigit 10 b" by simp
    then have "b \<noteq> CHR ''x''" "b \<noteq> CHR ''X''" by (rule decimal_not_other)+
    with s Cons show ?thesis by simp
  qed
  have all: "takeWhile (isRadixDigit 10) s = s"
    using assms(2) by (simp add: takeWhile_eq_all_conv)
  have ws: "trimStart s = s"
    unfolding s using decimal_not_other(6,1) [OF c] by (rule trimStart_ascii)
  have sgn: "c \<noteq> CHR ''+''" "c \<noteq> CHR ''-''"
    using c by (rule decimal_not_other)+
  have sign: "(case s of c # _ \<Rightarrow> if c = CHR ''-'' then (-1::int) else 1 | [] \<Rightarrow> 1) = 1"
    using s sgn by simp
  have S1: "(case s of c # r \<Rightarrow> if c = CHR ''+'' \<or> c = CHR ''-'' then r else s | [] \<Rightarrow> s) = s"
    using s sgn by simp
  show "parseInt s = Some (mathInt 10 s)"
    using assms(1) by (simp add: parseInt_def Let_def ws sign S1 nohex all)
  have ws': "trimStart (CHR ''-'' # s) = CHR ''-'' # s"
    by (rule trimStart_ascii) (simp_all add: isWhiteSpace_def)
  show "parseInt (CHR ''-'' # s) = Some (- mathInt 10 s)"
    using assms(1) by (simp add: parseInt_def Let_def ws' nohex all)
qed

lemma parseInt_toString: "parseInt (toString n) = Some n"
proof (cases "n < 0")
  case True
  have "parseInt (CHR ''-'' # showNat (nat (- n))) = Some (- mathInt 10 (showNat (nat (- n))))"
    by (rule parseInt_decimal(2) [OF showNat_not_Nil decimal_showNat])
  with True show ?thesis by (simp add: toString_def mathInt_showNat)
next
  case False
  have "parseInt (showNat (nat n)) = Some (mathInt 10 (showNat (nat n)))"
    by (rule parseInt_decimal(1) [OF showNat_not_Nil decimal_showNat])
  with False show ?thesis by (simp add: toString_def mathInt_showNat)
qed

lemma parseInt_no_digit:
  assumes "of_char c < (128 :: nat)" and "\<not> isWhiteSpace c"
    and "c \<noteq> CHR ''+''" and "c \<noteq> CHR ''-''" and "\<not> isRadixDigit 10 c"
  shows "parseInt (c # r) = None"
proof -
  have "c \<noteq> CHR ''0''"
    using assms(5) by (auto simp: isRadixDigit_def digitValue_def Let_def)
  moreover have "trimStart (c # r) = c # r"
    using assms(1,2) by (rule trimStart_ascii)
  ultimately show ?thesis
    using assms(3,4,5) by (simp add: parseInt_def Let_def split: list.splits)
qed

lemma parseInt_undefined: "parseInt ''undefined'' = None"
  by code_simp

text \<open>
  C7: the defaults 800, 600 and 80 should apply exactly when the parameter is absent or
  not numeric, and every numeric value should pass through, width 0 included. The code
  writes \<^verbatim>\<open>Number.parseInt(v) || 800\<close>, and 0 is falsy: width 0 becomes 800.
\<close>

theorem parse_zero_counterexample:
  "parseInt ''0'' = Some 0
   \<and> parseWidth (get ''a.jpg'' [(''width'', ''0'')]) = 800
   \<and> resized (requestImage (get ''a.jpg'' [(''width'', ''0'')]))
       = Some \<lparr>rwidth = 800, rheight = 600, rfit = Inside, withoutEnlargement = True\<rparr>"
  by code_simp

text \<open>What \<^verbatim>\<open>resize\<close> and the encoders are given.\<close>

lemma resized_buildImage:
  "resized (buildImage n wd ht q f)
     = Some \<lparr>rwidth = wd, rheight = ht, rfit = Inside, withoutEnlargement = True\<rparr>"
  by (simp add: buildImage_def Let_def sharp_def resize_def png_def webp_def jpeg_def)

lemma encoding_buildImage:
  "encoding (buildImage n wd ht q f)
     = Some (if f = ''png'' then Png else if f = ''webp'' then Webp q else Jpeg q)"
  by (simp add: buildImage_def Let_def sharp_def resize_def png_def webp_def jpeg_def)

lemma parseInt_trims_no_break_space: "parseInt [CHR 0xC2, CHR 0xA0, CHR ''5''] = Some 5"
  by code_simp

text \<open>
  C7, as the handler behaves: an absent parameter gives the default; a parameter that
  parses to \<^verbatim>\<open>NaN\<close> (such as a string that starts with an ASCII character that is
  neither white space, a sign nor a digit) or to 0 gives the default; every other
  parsed integer, negative or huge, is used as it is. In particular the decimal
  spelling of an integer \<open>n\<close> other than 0 gives \<open>n\<close>. Parsed values are taken
  within the magnitude \<open>2 ^ 53\<close> that a Number holds exactly. The parsed width and
  height are the arguments of \<^verbatim>\<open>resize\<close>, and the parsed quality is the quality of
  the \<^verbatim>\<open>webp\<close> and \<^verbatim>\<open>jpeg\<close> encoders, with no validation or clamping in
  between; on a cache miss the handler runs the image library on the image so built.
\<close>

theorem parse_defaults_and_pass_through:
  "parseWidth (req\<lparr>query_width := None\<rparr>) = 800
   \<and> parseHeight (req\<lparr>query_height := None\<rparr>) = 600
   \<and> parseQuality (req\<lparr>query_quality := None\<rparr>) = 80
   \<and> (\<bar>n\<bar> \<le> 2 ^ 53 \<longrightarrow>
        parseWidth (req\<lparr>query_width := Some (QStr (toString n))\<rparr>) = (if n = 0 then 800 else n)
      \<and> parseHeight (req\<lparr>query_height := Some (QStr (toString n))\<rparr>) = (if n = 0 then 600 else n)
      \<and> parseQuality (req\<lparr>query_quality := Some (QStr (toString n))\<rparr>) = (if n = 0 then 80 else n))
   \<and> (of_char c < (128 :: nat) \<and> \<not> isWhiteSpace c \<and> c \<noteq> CHR ''+'' \<and> c \<noteq> CHR ''-''
        \<and> \<not> isRadixDigit 10 c \<longrightarrow>
        parseWidth (req\<lparr>query_width := Some (QStr (c # s))\<rparr>) = 800
      \<and> parseHeight (req\<lparr>query_height := Some (QStr (c # s))\<rparr>) = 600
      \<and> parseQuality (req\<lparr>query_quality := Some (QStr (c # s))\<rparr>) = 80)
   \<and> (parseInt (ToStringU (query_width req)) \<in> {None, Some 0} \<longrightarrow> parseWidth req = 800)
   \<and> (parseInt (ToStringU (query_height req)) \<in> {None, Some 0} \<longrightarrow> parseHeight req = 600)
   \<and> (parseInt (ToStringU (query_quality req)) \<in> {None, Some 0} \<longrightarrow> parseQuality req = 80)
   \<and> (\<forall>m. m \<noteq> 0 \<and> \<bar>m\<bar> \<le> 2 ^ 53 \<and> parseInt (ToStringU (query_width req)) = Some m
          \<longrightarrow> parseWidth req = m)
   \<and> (\<forall>m. m \<noteq> 0 \<and> \<bar>m\<bar> \<le> 2 ^ 53 \<and> parseInt (ToStringU (query_height req)) = Some m
          \<longrightarrow> parseHeight req = m)
   \<and> (\<forall>m. m \<noteq> 0 \<and> \<bar>m\<bar> \<le> 2 ^ 53 \<and> parseInt (ToStringU (query_quality req)) = Some m
          \<longrightarrow> parseQuality req = m)
   \<and> resized (requestImage req)
       = Some \<lparr>rwidth = parseWidth req, rheight = parseHeight req, rfit = Inside,
               withoutEnlargement = True\<rparr>
   \<and> (requestFormat req = ''webp'' \<longrightarrow> encoding (requestImage req) = Some (Webp (parseQuality req)))
   \<and> (requestFormat req \<in> {''jpg'', ''jpeg''} \<longrightarrow>
        encoding (requestImage req) = Some (Jpeg (parseQuality req)))
   \<and> (arrayIncludes validFormats (parseFormat req) \<and> files w (requestCachePath d req) = None
        \<longrightarrow> take 2 (effects (optimize d w req))
              = [ReadFile (requestCachePath d req), ToBuffer (requestImage req)])"
proof -
  have absent: "orDefault (parseInt (ToStringU None)) k = k" for k
    by (simp add: ToStringU_def parseInt_undefined orDefault_def)
  have given: "orDefault (parseInt (ToStringU (Some (QStr (toString n))))) k
      = (if n = 0 then k else n)" for k
    by (simp add: ToStringU_def parseInt_toString orDefault_def)
  have nodigit: "orDefault (parseInt (ToStringU (Some (QStr (c # s))))) k = k"
    if "of_char c < (128 :: nat) \<and> \<not> isWhiteSpace c \<and> c \<noteq> CHR ''+'' \<and> c \<noteq> CHR ''-''
        \<and> \<not> isRadixDigit 10 c"
    for k
  proof -
    from that have "parseInt (c # s) = None"
      by (intro parseInt_no_digit) simp_all
    then show ?thesis by (simp add: ToStringU_def orDefault_def)
  qed
  have dflt: "p \<in> {None, Some 0} \<longrightarrow> orDefault p k = k" for p k
    by (auto simp: orDefault_def)
  have pass: "\<forall>m. m \<noteq> 0 \<and> \<bar>m\<bar> \<le> 2 ^ 53 \<and> p = Some m \<longrightarrow> orDefault p k = m" for p k
    by (simp add: orDefault_def)
  have c1: "parseWidth (req\<lparr>query_width := None\<rparr>) = 800"
    by (simp add: parseWidth_def absent)
  have c2: "parseHeight (req\<lparr>query_height := None\<rparr>) = 600"
    by (simp add: parseHeight_def absent)
  have c3: "parseQuality (req\<lparr>query_quality := None\<rparr>) = 80"
    by (simp add: parseQuality_def absent)
  have c4: "\<bar>n\<bar> \<le> 2 ^ 53 \<longrightarrow>
        parseWidth (req\<lparr>query_width := Some (QStr (toString n))\<rparr>) = (if n = 0 then 800 else n)
      \<and> parseHeight (req\<lparr>query_height := Some (QStr (toString n))\<rparr>) = (if n = 0 then 600 else n)
      \<and> parseQuality (req\<lparr>query_quality := Some (QStr (toString n))\<rparr>) = (if n = 0 then 80 else n)"
    by (simp add: parseWidth_def parseHeight_def parseQuality_def given)
  have c5: "of_char c < (128 :: nat) \<and> \<not> isWhiteSpace c \<and> c \<noteq> CHR ''+'' \<and> c \<noteq> CHR ''-''
        \<and> \<not> isRadixDigit 10 c \<longrightarrow>
        parseWidth (req\<lparr>query_width := Some (QStr (c # s))\<rparr>) = 800
      \<and> parseHeight (req\<lparr>query_height := Some (QStr (c # s))\<rparr>) = 600
      \<and> parseQuality (req\<lparr>query_quality := Some (QStr (c # s))\<rparr>) = 80"
  proof
    assume "of_char c < (128 :: nat) \<and> \<not> isWhiteSpace c \<and> c \<noteq> CHR ''+'' \<and> c \<noteq> CHR ''-''
        \<and> \<not> isRadixDigit 10 c"
    then have "orDefault (parseInt (ToStringU (Some (QStr (c # s))))) k = k" for k
      by (rule nodigit)
    then show "parseWidth (req\<lparr>query_width := Some (QStr (c # s))\<rparr>) = 800
      \<and> parseHeight (req\<lparr>query_height := Some (QStr (c # s))\<rparr>) = 600
      \<and> parseQuality (req\<lparr>query_quality := Some (QStr (c # s))\<rparr>) = 80"
      by (simp add: parseWidth_def parseHeight_def parseQuality_def)
  qed
  have c6: "parseInt (ToStringU (query_width req)) \<in> {None, Some 0} \<longrightarrow> parseWidth req = 800"
    unfolding parseWidth_def by (rule dflt)
  have c7: "parseInt (ToStringU (query_height req)) \<in> {None, Some 0} \<longrightarrow> parseHeight req = 600"
    unfolding parseHeight_def by (rule dflt)
  have c8: "parseInt (ToStringU (query_quality req)) \<in> {None, Some 0} \<longrightarrow> parseQuality req = 80"
    unfolding parseQuality_def by (rule dflt)
  have c9: "\<forall>m. m \<noteq> 0 \<and> \<bar>m\<bar> \<le> 2 ^ 53 \<and> parseInt (ToStringU (query_width req)) = Some m
          \<longrightarrow> parseWidth req = m"
    unfolding parseWidth_def by (rule pass)
  have c10: "\<forall>m. m \<noteq> 0 \<and> \<bar>m\<bar> \<le> 2 ^ 53 \<and> parseInt (ToStringU (query_height req)) = Some m
          \<longrightarrow> parseHeight req = m"
    unfolding parseHeight_def by (rule pass)
  have c11: "\<forall>m. m \<noteq> 0 \<and> \<bar>m\<bar> \<le> 2 ^ 53 \<and> parseInt (ToStringU (query_quality req)) = Some m
          \<longrightarrow> parseQuality req = m"
    unfolding parseQuality_def by (rule pass)
  have c12: "resized (requestImage req)
       = Some \<lparr>rwidth = parseWidth req, rheight = parseHeight req, rfit = Inside,
               withoutEnlargement = True\<rparr>"
    by (simp add: requestImage_def resized_buildImage)
  have c13: "requestFormat req = ''webp'' \<longrightarrow>
        encoding (requestImage req) = Some (Webp (parseQuality req))"
    by (simp add: requestImage_def encoding_buildImage)
  have c14: "requestFormat req \<in> {''jpg'', ''jpeg''} \<longrightarrow>
        encoding (requestImage req) = Some (Jpeg (parseQuality req))"
    by (auto simp: requestImage_def encoding_buildImage)
  have c15: "arrayIncludes validFormats (parseFormat req) \<and> files w (requestCachePath d req) = None
        \<longrightarrow> take 2 (effects (optimize d w req))
              = [ReadFile (requestCachePath d req), ToBuffer (requestImage req)]"
    by (simp add: miss_runs_requestImage)
  from c1 c2 c3 c4 c5 c6 c7 c8 c9 c10 c11 c12 c13 c14 c15 show ?thesis
    by - (intro conjI; assumption)
qed

theorem parse_defaults_and_pass_through_witness:
  "parseInt (ToStringU (query_quality (get ''a.jpg'' [(''quality'', ''99999''), (''height'', ''abc'')])))
     = Some 99999
   \<and> parseQuality (get ''a.jpg'' [(''quality'', ''99999''), (''height'', ''abc'')]) = 99999
   \<and> parseInt (ToStringU (query_height (get ''a.jpg'' [(''quality'', ''99999''), (''height'', ''abc'')])))
     = None
   \<and> parseHeight (get ''a.jpg'' [(''quality'', ''99999''), (''height'', ''abc'')]) = 600
   \<and> requestFormat (get ''a.jpg'' [(''quality'', ''99999''), (''height'', ''abc'')]) = ''jpg''
   \<and> encoding (requestImage (get ''a.jpg'' [(''quality'', ''99999''), (''height'', ''abc'')]))
     = Some (Jpeg 99999)
   \<and> parseInt (ToStringU (query_width (get ''a.jpg'' [(''width'', ''-5px'')]))) = Some (- 5)
   \<and> parseWidth (get ''a.jpg'' [(''width'', ''-5px'')]) = - 5
   \<and> resized (requestImage (get ''a.jpg'' [(''width'', ''-5px'')]))
     = Some \<lparr>rwidth = - 5, rheight = 600, rfit = Inside, withoutEnlargement = True\<rparr>
   \<and> arrayIncludes validFormats (parseFormat (get ''a.jpg'' [(''width'', ''40''), (''quality'', ''37'')]))
   \<and> files coldWorld (requestCachePath testDeps (get ''a.jpg'' [(''width'', ''40''), (''quality'', ''37'')]))
     = None
   \<and> take 2 (effects (optimize testDeps coldWorld (get ''a.jpg'' [(''width'', ''40''), (''quality'', ''37'')])))
     = [ReadFile (requestCachePath testDeps (get ''a.jpg'' [(''width'', ''40''), (''quality'', ''37'')])),
        ToBuffer \<lparr>input = ''./public/a.jpg'',
                  resized = Some \<lparr>rwidth = 40, rheight = 600, rfit = Inside,
                                  withoutEnlargement = True\<rparr>,
                  encoding = Some (Jpeg 37)\<rparr>]"
proof -
  let ?a = "get ''a.jpg'' [(''quality'', ''99999''), (''height'', ''abc'')]"
  let ?b = "get ''a.jpg'' [(''width'', ''-5px'')]"
  let ?c = "get ''a.jpg'' [(''width'', ''40''), (''quality'', ''37'')]"
  have q: "parseInt (ToStringU (query_quality ?a)) = Some 99999"
    by code_simp
  have h: "parseInt (ToStringU (query_height ?a)) = None"
    by code_simp
  have f: "requestFormat ?a = ''jpg''"
    by code_simp
  have w: "parseInt (ToStringU (query_width ?b)) = Some (- 5)"
    by code_simp
  have hb: "parseHeight ?b = 600"
    by code_simp
  have valid: "arrayIncludes validFormats (parseFormat ?c)"
    by code_simp
  have miss: "files coldWorld (requestCachePath testDeps ?c) = None"
    by (simp add: requestCachePath_def coldWorld_def)
  have img: "requestImage ?c
      = \<lparr>input = ''./public/a.jpg'',
         resized = Some \<lparr>rwidth = 40, rheight = 600, rfit = Inside, withoutEnlargement = True\<rparr>,
         encoding = Some (Jpeg 37)\<rparr>"
    by code_simp
  note a = parse_defaults_and_pass_through [of ?a 0 "CHR ''a''" "[]" coldWorld testDeps]
  note b = parse_defaults_and_pass_through [of ?b 0 "CHR ''a''" "[]" coldWorld testDeps]
  note c = parse_defaults_and_pass_through [of ?c 0 "CHR ''a''" "[]" coldWorld testDeps]
  from a have "\<forall>m. m \<noteq> 0 \<and> \<bar>m\<bar> \<le> 2 ^ 53 \<and> parseInt (ToStringU (query_quality ?a)) = Some m
          \<longrightarrow> parseQuality ?a = m"
    by - (elim conjE, assumption)
  with q have qa: "parseQuality ?a = 99999"
    by simp
  from a have "parseInt (ToStringU (query_height ?a)) \<in> {None, Some 0} \<longrightarrow> parseHeight ?a = 600"
    by - (elim conjE, assumption)
  with h have ha: "parseHeight ?a = 600"
    by simp
  from a have "requestFormat ?a \<in> {''jpg'', ''jpeg''} \<longrightarrow>
        encoding (requestImage ?a) = Some (Jpeg (parseQuality ?a))"
    by - (elim conjE, assumption)
  with f qa have ea: "encoding (requestImage ?a) = Some (Jpeg 99999)"
    by simp
  from b have "\<forall>m. m \<noteq> 0 \<and> \<bar>m\<bar> \<le> 2 ^ 53 \<and> parseInt (ToStringU (query_width ?b)) = Some m
          \<longrightarrow> parseWidth ?b = m"
    by - (elim conjE, assumption)
  with w have wb: "parseWidth ?b = - 5"
    by simp
  from b have "resized (requestImage ?b)
       = Some \<lparr>rwidth = parseWidth ?b, rheight = parseHeight ?b, rfit = Inside,
               withoutEnlargement = True\<rparr>"
    by - (elim conjE, assumption)
  with wb hb have rb: "resized (requestImage ?b)
       = Some \<lparr>rwidth = - 5, rheight = 600, rfit = Inside, withoutEnlargement = True\<rparr>"
    by simp
  from c have "arrayIncludes validFormats (parseFormat ?c)
        \<and> files coldWorld (requestCachePath testDeps ?c) = None
        \<longrightarrow> take 2 (effects (optimize testDeps coldWorld ?c))
              = [ReadFile (requestCachePath testDeps ?c), ToBuffer (requestImage ?c)]"
    by - (elim conjE, assumption)
  with valid miss have rc: "take 2 (effects (optimize testDeps coldWorld ?c))
     = [ReadFile (requestCachePath testDeps ?c),
        ToBuffer \<lparr>input = ''./public/a.jpg'',
                  resized = Some \<lparr>rwidth = 40, rheight = 600, rfit = Inside,
                                  withoutEnlargement = True\<rparr>,
                  encoding = Some (Jpeg 37)\<rparr>]"
    by (simp add: img)
  from q qa h ha f ea w wb rb valid miss rc show ?thesis
    by - (intro conjI; assumption)
qed

subsection \<open>The formats\<close>

text \<open>
  C6: \<^verbatim>\<open>jpg\<close> and \<^verbatim>\<open>jpeg\<close> should be one canonical format, with the same
  CacheKey and the same Content-Type. The handler does not normalise the format: for two
  requests that differ only in \<^verbatim>\<open>format=jpg\<close> and \<^verbatim>\<open>format=jpeg\<close> the cache
  paths differ and so do the Content-Type headers.
\<close>

theorem jpg_jpeg_counterexample:
  "requestCachePath testDeps (get ''a.jpg'' [(''format'', ''jpg'')])
     \<noteq> requestCachePath testDeps (get ''a.jpg'' [(''format'', ''jpeg'')])
   \<and> contentType (res (optimize testDeps coldWorld (get ''a.jpg'' [(''format'', ''jpg'')])))
       = Some ''image/jpg''
   \<and> contentType (res (optimize testDeps coldWorld (get ''a.jpg'' [(''format'', ''jpeg'')])))
       = Some ''image/jpeg''"
  by code_simp

lemma suffix_jpg_jpeg: "(a :: string) @ ''.jpg'' \<noteq> b @ ''.jpeg''"
proof
  assume "a @ ''.jpg'' = b @ ''.jpeg''"
  then have "rev (a @ ''.jpg'') = rev (b @ ''.jpeg'')"
    by (rule arg_cong)
  then show False by simp
qed

lemma contentType_served:
  assumes "status (res (optimize d w req)) = 200"
  shows "contentType (res (optimize d w req)) = Some (''image/'' @ requestFormat req)"
proof (cases "arrayIncludes validFormats (parseFormat req)")
  case False
  with assms show ?thesis by (simp add: optimize_invalid)
next
  case valid: True
  show ?thesis
  proof (cases "files w (requestCachePath d req)")
    case (Some b)
    with valid show ?thesis by (simp add: optimize_hit)
  next
    case None
    with valid have eq: "optimize d w req =
        cacheMiss d w (params_imageName req) (parseWidth req) (parseHeight req)
          (parseQuality req) (requestFormat req) (requestCachePath d req)"
      by (rule optimize_miss)
    show ?thesis
      using assms unfolding eq
      by (auto simp: cacheMiss_def Let_def failed_def split: sum.splits)
  qed
qed

text \<open>
  C6, as the handler behaves: \<^verbatim>\<open>jpg\<close> and \<^verbatim>\<open>jpeg\<close> are both accepted and select
  the same work of the image library (the JPEG encoder at the same quality), but they
  are kept apart: whatever the digest, the two cache keys differ, so the two spellings
  use separate cache entries, and a served response carries \<^verbatim>\<open>image/jpg\<close> for one
  and \<^verbatim>\<open>image/jpeg\<close> for the other.
\<close>

theorem jpg_jpeg_not_normalized:
  "generateCacheKey digest n wd ht q ''jpg'' \<noteq> generateCacheKey digest n wd ht q ''jpeg''
   \<and> requestCachePath d (req\<lparr>query_format := Some (QStr ''jpg'')\<rparr>)
       \<noteq> requestCachePath d (req\<lparr>query_format := Some (QStr ''jpeg'')\<rparr>)
   \<and> requestImage (req\<lparr>query_format := Some (QStr ''jpg'')\<rparr>)
       = requestImage (req\<lparr>query_format := Some (QStr ''jpeg'')\<rparr>)
   \<and> status (res (optimize d w (req\<lparr>query_format := Some (QStr ''jpg'')\<rparr>))) \<noteq> 400
   \<and> status (res (optimize d w (req\<lparr>query_format := Some (QStr ''jpeg'')\<rparr>))) \<noteq> 400
   \<and> (status (res (optimize d w (req\<lparr>query_format := Some (QStr ''jpg'')\<rparr>))) = 200 \<longrightarrow>
        contentType (res (optimize d w (req\<lparr>query_format := Some (QStr ''jpg'')\<rparr>)))
          = Some ''image/jpg'')
   \<and> (status (res (optimize d w (req\<lparr>query_format := Some (QStr ''jpeg'')\<rparr>))) = 200 \<longrightarrow>
        contentType (res (optimize d w (req\<lparr>query_format := Some (QStr ''jpeg'')\<rparr>)))
          = Some ''image/jpeg'')"
proof -
  let ?a = "req\<lparr>query_format := Some (QStr ''jpg'')\<rparr>"
  let ?b = "req\<lparr>query_format := Some (QStr ''jpeg'')\<rparr>"
  have fa: "parseFormat ?a = QStr ''jpg''" and fb: "parseFormat ?b = QStr ''jpeg''"
    by (simp_all add: parseFormat_def)
  then have ra: "requestFormat ?a = ''jpg''" and rb: "requestFormat ?b = ''jpeg''"
    by (simp_all add: requestFormat_def)
  have key: "generateCacheKey h n wd ht q ''jpg'' \<noteq> generateCacheKey h n wd ht q ''jpeg''"
    for h n wd ht q
    by (simp add: generateCacheKey_def Let_def suffix_jpg_jpeg del: append_assoc
          flip: append_assoc)
  have path: "requestCachePath d ?a \<noteq> requestCachePath d ?b"
    using key by (simp add: requestCachePath_def ra rb parseWidth_def parseHeight_def
          parseQuality_def)
  have img: "requestImage ?a = requestImage ?b"
    by (simp add: requestImage_def ra rb buildImage_def parseWidth_def parseHeight_def
          parseQuality_def)
  have va: "arrayIncludes validFormats (parseFormat ?a)"
    and vb: "arrayIncludes validFormats (parseFormat ?b)"
    by (simp_all add: fa fb arrayIncludes_validFormats)
  have cta: "contentType (res (optimize d w ?a)) = Some ''image/jpg''"
    if "status (res (optimize d w ?a)) = 200"
    using contentType_served [OF that] by (simp add: ra)
  have ctb: "contentType (res (optimize d w ?b)) = Some ''image/jpeg''"
    if "status (res (optimize d w ?b)) = 200"
    using contentType_served [OF that] by (simp add: rb)
  from key path img status_valid_format [OF va] status_valid_format [OF vb] cta ctb
  show ?thesis by blast
qed

theorem jpg_jpeg_not_normalized_witness:
  "status (res (optimize testDeps coldWorld
       ((get ''a.jpg'' [])\<lparr>query_format := Some (QStr ''jpg'')\<rparr>))) = 200
   \<and> contentType (res (optimize testDeps coldWorld
       ((get ''a.jpg'' [])\<lparr>query_format := Some (QStr ''jpg'')\<rparr>))) = Some ''image/jpg''
   \<and> status (res (optimize testDeps coldWorld
       ((get ''a.jpg'' [])\<lparr>query_format := Some (QStr ''jpeg'')\<rparr>))) = 200
   \<and> contentType (res (optimize testDeps coldWorld
       ((get ''a.jpg'' [])\<lparr>query_format := Some (QStr ''jpeg'')\<rparr>))) = Some ''image/jpeg''"
proof -
  have a: "status (res (optimize testDeps coldWorld
       ((get ''a.jpg'' [])\<lparr>query_format := Some (QStr ''jpg'')\<rparr>))) = 200"
    by code_simp
  have b: "status (res (optimize testDeps coldWorld
       ((get ''a.jpg'' [])\<lparr>query_format := Some (QStr ''jpeg'')\<rparr>))) = 200"
    by code_simp
  from jpg_jpeg_not_normalized [of hexDigest "''a.jpg''" 800 600 80 testDeps "get ''a.jpg'' []" coldWorld]
    a b
  show ?thesis by simp
qed

subsection \<open>The transform of a cache miss\<close>

text \<open>
  C9: for \<^verbatim>\<open>png\<close> the quality has no effect on the transform. The image built for
  \<^verbatim>\<open>png\<close> does not mention the quality, so the image library is given the same work
  for any two qualities and returns the same bytes or the same error; the whole cache
  miss, response and effects included, is the same. No quality makes the handler
  fail a \<^verbatim>\<open>png\<close> request where another quality would not.
\<close>

theorem png_quality_no_effect:
  "buildImage n wd ht q1 ''png'' = buildImage n wd ht q2 ''png''
   \<and> encoding (buildImage n wd ht q1 ''png'') = Some Png
   \<and> toBuffer d w (buildImage n wd ht q1 ''png'') = toBuffer d w (buildImage n wd ht q2 ''png'')
   \<and> cacheMiss d w n wd ht q1 ''png'' p = cacheMiss d w n wd ht q2 ''png'' p"
proof -
  have same: "buildImage n wd ht q1 ''png'' = buildImage n wd ht q2 ''png''"
    by (simp add: buildImage_def)
  have "cacheMiss d w n wd ht q1 ''png'' p = cacheMiss d w n wd ht q2 ''png'' p"
    unfolding cacheMiss_def same ..
  with same show ?thesis
    by (simp add: encoding_buildImage)
qed

subsection \<open>The resize policy\<close>

text \<open>Rounding to the nearest pixel: a bound, and the error of at most half a pixel.\<close>

lemma round_div_le:
  fixes a b c :: nat
  assumes "0 < b" and "a \<le> c * b"
  shows "(2 * a + b) div (2 * b) \<le> c"
proof -
  have "2 * a + b < 2 * (c * b) + 2 * b"
    using assms by linarith
  also have "\<dots> = (c + 1) * (2 * b)"
    by (simp add: algebra_simps)
  finally have "(2 * a + b) div (2 * b) < c + 1"
    using assms(1) by (simp add: div_less_iff_less_mult)
  then show ?thesis by simp
qed

lemma round_div_error:
  fixes a b :: nat
  assumes "0 < b"
  shows "\<bar>2 * int b * int ((2 * a + b) div (2 * b)) - 2 * int a\<bar> \<le> int b"
proof -
  define q where "q = (2 * a + b) div (2 * b)"
  define r where "r = (2 * a + b) mod (2 * b)"
  have "2 * b * q + r = 2 * a + b"
    unfolding q_def r_def by (rule mult_div_mod_eq)
  then have "int (2 * b * q + r) = int (2 * a + b)"
    by (rule arg_cong)
  then have eq: "2 * int b * int q + int r = 2 * int a + int b"
    by (simp only: of_nat_add of_nat_mult of_nat_numeral)
  have "r < 2 * b"
    unfolding r_def using assms by simp
  then have "int r < 2 * int b" by linarith
  with eq have "\<bar>2 * int b * int q - 2 * int a\<bar> \<le> int b"
    by linarith
  then show ?thesis by (simp only: q_def)
qed


lemma fitInside_native:
  assumes "W \<le> w" and "H \<le> h"
  shows "fitInside True (W, H) (w, h) = (W, H)"
  using assms by (simp add: fitInside_def)

lemma fitInside_byWidth:
  assumes "\<not> (W \<le> w \<and> H \<le> h)" and "w * H \<le> h * W"
  shows "fitInside True (W, H) (w, h) = (w, max 1 ((2 * (H * w) + W) div (2 * W)))"
  using assms by (auto simp: fitInside_def mult.assoc)

lemma fitInside_byHeight:
  assumes "\<not> (W \<le> w \<and> H \<le> h)" and "\<not> w * H \<le> h * W"
  shows "fitInside True (W, H) (w, h) = (max 1 ((2 * (W * h) + H) div (2 * H)), h)"
  using assms by (auto simp: fitInside_def mult.assoc)

lemma byWidth_shrinks:
  fixes W H w h :: nat
  assumes "0 < W" and "\<not> (W \<le> w \<and> H \<le> h)" and "w * H \<le> h * W"
  shows "w \<le> W"
proof (rule ccontr)
  assume "\<not> w \<le> W"
  then have Ww: "W < w" by simp
  with assms(2) have "h < H" by simp
  then have "h * W < H * W" using assms(1) by simp
  also have "H * W \<le> H * w" using Ww by simp
  also have "\<dots> = w * H" by (rule mult.commute)
  finally show False using assms(3) by simp
qed

lemma fitInside_bounds:
  assumes "0 < W" and "0 < H" and "0 < w" and "0 < h"
    and "fitInside True (W, H) (w, h) = (ow, oh)"
  shows "0 < ow \<and> 0 < oh \<and> ow \<le> w \<and> oh \<le> h \<and> ow \<le> W \<and> oh \<le> H"
proof -
  consider (keep) "W \<le> w \<and> H \<le> h"
    | (byWidth) "\<not> (W \<le> w \<and> H \<le> h)" "w * H \<le> h * W"
    | (byHeight) "\<not> (W \<le> w \<and> H \<le> h)" "\<not> w * H \<le> h * W"
    by blast
  then show ?thesis
  proof cases
    case keep
    then have "fitInside True (W, H) (w, h) = (W, H)"
      by (simp add: fitInside_native)
    with assms keep show ?thesis by simp
  next
    case byWidth
    define q where "q = (2 * (H * w) + W) div (2 * W)"
    from byWidth have "fitInside True (W, H) (w, h) = (w, max 1 q)"
      unfolding q_def by (rule fitInside_byWidth)
    with assms(5) have out: "ow = w" "oh = max 1 q" by simp_all
    have wW: "w \<le> W"
      using assms(1) byWidth by (rule byWidth_shrinks)
    have "H * w \<le> h * W" using byWidth(2) by (simp add: mult.commute)
    then have qh: "q \<le> h"
      unfolding q_def using assms(1) by (intro round_div_le)
    have "H * w \<le> H * W" using wW by simp
    then have qH: "q \<le> H"
      unfolding q_def using assms(1) by (intro round_div_le)
    from out wW qh qH assms(2,3,4) show ?thesis by simp
  next
    case byHeight
    define q where "q = (2 * (W * h) + H) div (2 * H)"
    from byHeight have "fitInside True (W, H) (w, h) = (max 1 q, h)"
      unfolding q_def by (rule fitInside_byHeight)
    with assms(5) have out: "ow = max 1 q" "oh = h" by simp_all
    have sw: "\<not> (H \<le> h \<and> W \<le> w)" using byHeight(1) by blast
    have le: "h * W \<le> w * H" using byHeight(2) by simp
    have hH: "h \<le> H"
      using assms(2) sw le by (rule byWidth_shrinks)
    have "W * h \<le> w * H" using le by (simp add: mult.commute)
    then have qw: "q \<le> w"
      unfolding q_def using assms(2) by (intro round_div_le)
    have "W * h \<le> W * H" using hH by simp
    then have qW: "q \<le> W"
      unfolding q_def using assms(2) by (intro round_div_le)
    from out hH qw qW assms(1,3,4) show ?thesis by simp
  qed
qed


lemma round_div_zero:
  fixes a b :: nat
  assumes "0 < b" and "(2 * a + b) div (2 * b) = 0"
  shows "2 * a < b"
proof -
  from assms have "2 * a + b < 2 * b"
    by (simp add: div_eq_0_iff)
  then show ?thesis by simp
qed

text \<open>
  The aspect ratio: unless the size is kept, one side is the side of the box and the
  other is the proportional length to within half a pixel; it is the minimum of one
  pixel only where the proportional length is below half a pixel.
\<close>

lemma fitInside_aspect:
  assumes "0 < W" and "0 < H"
    and "fitInside True (W, H) (w, h) = (ow, oh)"
  shows "(ow, oh) = (W, H)
       \<or> (ow = w \<and> (\<bar>2 * int W * int oh - 2 * int (H * ow)\<bar> \<le> int W
                   \<or> (oh = 1 \<and> 2 * (H * ow) < W)))
       \<or> (oh = h \<and> (\<bar>2 * int H * int ow - 2 * int (W * oh)\<bar> \<le> int H
                   \<or> (ow = 1 \<and> 2 * (W * oh) < H)))"
proof -
  consider (keep) "W \<le> w \<and> H \<le> h"
    | (byWidth) "\<not> (W \<le> w \<and> H \<le> h)" "w * H \<le> h * W"
    | (byHeight) "\<not> (W \<le> w \<and> H \<le> h)" "\<not> w * H \<le> h * W"
    by blast
  then show ?thesis
  proof cases
    case keep
    then have "fitInside True (W, H) (w, h) = (W, H)"
      by (simp add: fitInside_native)
    with assms(3) show ?thesis by simp
  next
    case byWidth
    define q where "q = (2 * (H * w) + W) div (2 * W)"
    from byWidth have "fitInside True (W, H) (w, h) = (w, max 1 q)"
      unfolding q_def by (rule fitInside_byWidth)
    with assms(3) have out: "ow = w" "oh = max 1 q" by simp_all
    have err: "\<bar>2 * int W * int q - 2 * int (H * w)\<bar> \<le> int W"
      unfolding q_def using assms(1) by (rule round_div_error)
    have small: "2 * (H * w) < W" if "q = 0"
      using assms(1) that unfolding q_def by (rule round_div_zero)
    have "\<bar>2 * int W * int oh - 2 * int (H * ow)\<bar> \<le> int W \<or> (oh = 1 \<and> 2 * (H * ow) < W)"
    proof (cases "q = 0")
      case True
      with out small show ?thesis by simp
    next
      case False
      then have "oh = q" using out(2) by simp
      with err out(1) show ?thesis by simp
    qed
    with out(1) show ?thesis by blast
  next
    case byHeight
    define q where "q = (2 * (W * h) + H) div (2 * H)"
    from byHeight have "fitInside True (W, H) (w, h) = (max 1 q, h)"
      unfolding q_def by (rule fitInside_byHeight)
    with assms(3) have out: "ow = max 1 q" "oh = h" by simp_all
    have err: "\<bar>2 * int H * int q - 2 * int (W * h)\<bar> \<le> int H"
      unfolding q_def using assms(2) by (rule round_div_error)
    have small: "2 * (W * h) < H" if "q = 0"
      using assms(2) that unfolding q_def by (rule round_div_zero)
    have "\<bar>2 * int H * int ow - 2 * int (W * oh)\<bar> \<le> int H \<or> (ow = 1 \<and> 2 * (W * oh) < H)"
    proof (cases "q = 0")
      case True
      with out small show ?thesis by simp
    next
      case False
      then have "ow = q" using out(1) by simp
      with err out(2) show ?thesis by simp
    qed
    with out(2) show ?thesis by blast
  qed
qed

text \<open>
  C8: on a cache miss the handler runs the image library on an image that asks for
  \<^verbatim>\<open>fit: inside\<close> with \<^verbatim>\<open>withoutEnlargement: true\<close> and the parsed width and
  height. For a source of \<open>W \<times> H\<close> pixels and a positive box, the output of that
  image under the resize policy of the spec has a size: it fits in the box, it is never
  larger than the source in either direction, and it is the native size when the box
  is at least as large as the source. The aspect ratio is preserved: unless the size
  is the native one, one side is the side of the box and the other is the proportional
  length to within half a pixel, or one pixel where the proportional length is below
  half a pixel.
\<close>

theorem resize_inside_never_enlarges:
  assumes "arrayIncludes validFormats (parseFormat req)"
    and "files w (requestCachePath d req) = None"
    and "0 < W" and "0 < H" and "0 < parseWidth req" and "0 < parseHeight req"
  shows "take 2 (effects (optimize d w req))
           = [ReadFile (requestCachePath d req), ToBuffer (requestImage req)]
       \<and> resized (requestImage req)
           = Some \<lparr>rwidth = parseWidth req, rheight = parseHeight req, rfit = Inside,
                   withoutEnlargement = True\<rparr>
       \<and> outputSize (requestImage req) (W, H) \<noteq> None
       \<and> (\<forall>ow oh. outputSize (requestImage req) (W, H) = Some (ow, oh) \<longrightarrow>
             0 < ow \<and> 0 < oh
           \<and> int ow \<le> parseWidth req \<and> int oh \<le> parseHeight req
           \<and> ow \<le> W \<and> oh \<le> H
           \<and> (int W \<le> parseWidth req \<and> int H \<le> parseHeight req \<longrightarrow> (ow, oh) = (W, H))
           \<and> ((ow, oh) = (W, H)
              \<or> (int ow = parseWidth req
                  \<and> (\<bar>2 * int W * int oh - 2 * int (H * ow)\<bar> \<le> int W
                     \<or> (oh = 1 \<and> 2 * (H * ow) < W)))
              \<or> (int oh = parseHeight req
                  \<and> (\<bar>2 * int H * int ow - 2 * int (W * oh)\<bar> \<le> int H
                     \<or> (ow = 1 \<and> 2 * (W * oh) < H)))))"
proof -
  define bw where "bw = nat (parseWidth req)"
  define bh where "bh = nat (parseHeight req)"
  have bw: "0 < bw" "int bw = parseWidth req" and bh: "0 < bh" "int bh = parseHeight req"
    using assms(5,6) by (simp_all add: bw_def bh_def)
  have run: "take 2 (effects (optimize d w req))
           = [ReadFile (requestCachePath d req), ToBuffer (requestImage req)]"
    using assms(1,2) by (rule miss_runs_requestImage)
  have r: "resized (requestImage req)
           = Some \<lparr>rwidth = parseWidth req, rheight = parseHeight req, rfit = Inside,
                   withoutEnlargement = True\<rparr>"
    by (simp add: requestImage_def resized_buildImage)
  have "resizedSize \<lparr>rwidth = parseWidth req, rheight = parseHeight req, rfit = Inside,
                   withoutEnlargement = True\<rparr> (W, H) = Some (fitInside True (W, H) (bw, bh))"
    using assms(5,6) by (simp add: resizedSize_def bw_def bh_def)
  then have size: "outputSize (requestImage req) (W, H) = Some (fitInside True (W, H) (bw, bh))"
    by (simp add: outputSize_def r)
  then have nonempty: "outputSize (requestImage req) (W, H) \<noteq> None"
    by simp
  show ?thesis
  proof (rule conjI [OF run], rule conjI [OF r], rule conjI [OF nonempty], intro allI impI)
    fix ow oh
    assume "outputSize (requestImage req) (W, H) = Some (ow, oh)"
    with size have out: "fitInside True (W, H) (bw, bh) = (ow, oh)"
      by simp
    have b: "0 < ow \<and> 0 < oh \<and> ow \<le> bw \<and> oh \<le> bh \<and> ow \<le> W \<and> oh \<le> H"
      using assms(3,4) bw(1) bh(1) out by (rule fitInside_bounds)
    then have pos: "0 < ow" "0 < oh" and box: "ow \<le> bw" "oh \<le> bh"
      and native: "ow \<le> W" "oh \<le> H"
      by blast+
    have boxw: "int ow \<le> parseWidth req"
      using box(1) bw(2) by linarith
    have boxh: "int oh \<le> parseHeight req"
      using box(2) bh(2) by linarith
    have same: "int W \<le> parseWidth req \<and> int H \<le> parseHeight req \<longrightarrow> (ow, oh) = (W, H)"
    proof
      assume "int W \<le> parseWidth req \<and> int H \<le> parseHeight req"
      with bw(2) bh(2) have "W \<le> bw" and "H \<le> bh" by linarith+
      then have "fitInside True (W, H) (bw, bh) = (W, H)" by (rule fitInside_native)
      with out show "(ow, oh) = (W, H)" by simp
    qed
    have eqw: "int ow = parseWidth req" if "ow = bw"
      using that bw(2) by simp
    have eqh: "int oh = parseHeight req" if "oh = bh"
      using that bh(2) by simp
    have "(ow, oh) = (W, H)
       \<or> (ow = bw \<and> (\<bar>2 * int W * int oh - 2 * int (H * ow)\<bar> \<le> int W
                   \<or> (oh = 1 \<and> 2 * (H * ow) < W)))
       \<or> (oh = bh \<and> (\<bar>2 * int H * int ow - 2 * int (W * oh)\<bar> \<le> int H
                   \<or> (ow = 1 \<and> 2 * (W * oh) < H)))"
      using assms(3,4) out by (rule fitInside_aspect)
    then have aspect: "(ow, oh) = (W, H)
              \<or> (int ow = parseWidth req
                  \<and> (\<bar>2 * int W * int oh - 2 * int (H * ow)\<bar> \<le> int W
                     \<or> (oh = 1 \<and> 2 * (H * ow) < W)))
              \<or> (int oh = parseHeight req
                  \<and> (\<bar>2 * int H * int ow - 2 * int (W * oh)\<bar> \<le> int H
                     \<or> (ow = 1 \<and> 2 * (W * oh) < H)))"
      using eqw eqh by blast
    from pos boxw boxh native same aspect
    show "0 < ow \<and> 0 < oh
           \<and> int ow \<le> parseWidth req \<and> int oh \<le> parseHeight req
           \<and> ow \<le> W \<and> oh \<le> H
           \<and> (int W \<le> parseWidth req \<and> int H \<le> parseHeight req \<longrightarrow> (ow, oh) = (W, H))
           \<and> ((ow, oh) = (W, H)
              \<or> (int ow = parseWidth req
                  \<and> (\<bar>2 * int W * int oh - 2 * int (H * ow)\<bar> \<le> int W
                     \<or> (oh = 1 \<and> 2 * (H * ow) < W)))
              \<or> (int oh = parseHeight req
                  \<and> (\<bar>2 * int H * int ow - 2 * int (W * oh)\<bar> \<le> int H
                     \<or> (ow = 1 \<and> 2 * (W * oh) < H))))"
      by - (intro conjI; assumption)
  qed
qed

theorem resize_inside_never_enlarges_witness:
  "arrayIncludes validFormats (parseFormat (get ''a.jpg'' []))
   \<and> files coldWorld (requestCachePath testDeps (get ''a.jpg'' [])) = None
   \<and> parseWidth (get ''a.jpg'' []) = 800 \<and> parseHeight (get ''a.jpg'' []) = 600
   \<and> take 2 (effects (optimize testDeps coldWorld (get ''a.jpg'' [])))
       = [ReadFile (requestCachePath testDeps (get ''a.jpg'' [])),
          ToBuffer (requestImage (get ''a.jpg'' []))]
   \<and> outputSize (requestImage (get ''a.jpg'' [])) (400, 300) = Some (400, 300)
   \<and> outputSize (requestImage (get ''a.jpg'' [])) (400, 1000) = Some (240, 600)
   \<and> outputSize (requestImage (get ''a.jpg'' [])) (4000, 2000) = Some (800, 400)"
proof -
  have valid: "arrayIncludes validFormats (parseFormat (get ''a.jpg'' []))"
    by code_simp
  have miss: "files coldWorld (requestCachePath testDeps (get ''a.jpg'' [])) = None"
    by code_simp
  have w: "parseWidth (get ''a.jpg'' []) = 800" and h: "parseHeight (get ''a.jpg'' []) = 600"
    by code_simp+
  have r: "resized (requestImage (get ''a.jpg'' []))
      = Some \<lparr>rwidth = 800, rheight = 600, rfit = Inside, withoutEnlargement = True\<rparr>"
    by (simp add: requestImage_def resized_buildImage w h)
  have s1: "outputSize (requestImage (get ''a.jpg'' [])) (400, 300) = Some (400, 300)"
    by (simp add: outputSize_def r resizedSize_def fitInside_def)
  have s2: "outputSize (requestImage (get ''a.jpg'' [])) (400, 1000) = Some (240, 600)"
    by (simp add: outputSize_def r resizedSize_def fitInside_def)
  have s3: "outputSize (requestImage (get ''a.jpg'' [])) (4000, 2000) = Some (800, 400)"
    by (simp add: outputSize_def r resizedSize_def fitInside_def)
  have pos: "(0::nat) < 4000" "(0::nat) < 2000" "0 < parseWidth (get ''a.jpg'' [])"
    "0 < parseHeight (get ''a.jpg'' [])"
    by (simp_all add: w h)
  note t = resize_inside_never_enlarges [OF valid miss pos]
  from t have run: "take 2 (effects (optimize testDeps coldWorld (get ''a.jpg'' [])))
       = [ReadFile (requestCachePath testDeps (get ''a.jpg'' [])),
          ToBuffer (requestImage (get ''a.jpg'' []))]"
    by (rule conjunct1)
  from valid miss w h run s1 s2 s3 show ?thesis
    by - (intro conjI; assumption)
qed

end
